theory Spec2Isabelle
  imports Main "HOL-Library.Word"
begin

unbundle bit_operations_syntax

section \<open>STK500v2 programmer: embedding of \<open>Cura/avr_isp/stk500v2.py\<close>\<close>

text \<open>
  The module is Python 3: it imports its siblings with \<open>from . import\<close>, catches with
  \<open>except ... as\<close> and reads the registry through \<open>winreg\<close>. So \<open>struct.pack\<close>
  returns a \<open>bytes\<close> object, whose elements are integers, and \<open>/\<close> on two integers is
  true division, whose result is a float. Python integers are \<open>int\<close>, a byte on the wire
  is an \<open>8 word\<close>.

  Every method of class \<open>Stk500v2\<close> takes the state and returns its result together with
  the state it leaves behind; an exception is the \<open>Inl\<close> of the result, and the state
  returned with it is the one the object is left in when the exception propagates.
\<close>

subsection \<open>Data\<close>

type_synonym byte = "8 word"

datatype error =
    IspError string
  | StructError
  | TypeError
  | ZeroDivisionError
  | IndexError
  | AttributeError

text \<open>The \<open>Serial\<close> object as far as the module uses it: its constructor's arguments.\<close>

record serial_port =
  port :: string
  baudrate :: int
  timeout :: int
  writeTimeout :: int

text \<open>What the constructor \<open>Serial(...)\<close> does when it is called.\<close>

datatype open_result = OpenOk | OpenSerialException | OpenOtherException string

text \<open>Every call that reaches the outside world, in the order it is made.\<close>

datatype event =
    Open string int
  | Close string
  | SetDTR int
  | Sleep nat
  | FlushInput
  | FlushOutput
  | Write "byte list"
  | Flush
  | Progress int int

text \<open>
  The fields of the object (\<open>serial\<close>, \<open>seq\<close>, \<open>lastAddr\<close>, \<open>progressCallback\<close>, and the
  two entries of \<open>chip\<close> that the module reads), followed by the environment:
  \<^item> \<open>rx\<close>: what the successive calls of \<open>serial.read()\<close> return, \<open>Some b\<close> for one byte,
    \<open>None\<close> for the empty string of a read that timed out; when the list is used up
    the line stays silent and every further read times out;
  \<^item> \<open>wr\<close>: for the successive calls of \<open>serial.write\<close>, whether the call raises the
    write timeout; when the list is used up no further write times out;
  \<^item> \<open>opens\<close>: the outcomes of the successive calls of the constructor \<open>Serial(...)\<close>,
    \<open>OpenOk\<close> when the list is used up;
  \<^item> \<open>trace\<close>: the calls made so far.
  A progress callback only observes: a call of it is an entry of the trace.
\<close>

record state =
  serial :: "serial_port option"
  seq :: int
  lastAddr :: int
  progressCallback :: bool
  chip_pageSize :: int
  chip_pageCount :: int
  rx :: "byte option list"
  wr :: "bool list"
  opens :: "open_result list"
  trace :: "event list"

subsection \<open>\<open>struct.pack\<close>, slices and \<open>%x\<close>\<close>

definition pack_B :: "int \<Rightarrow> error + byte list" where
  "pack_B c = (if 0 \<le> c \<and> c \<le> 255 then Inr [word_of_int c] else Inl StructError)"

definition pack_BBHB :: "int \<Rightarrow> int \<Rightarrow> int \<Rightarrow> int \<Rightarrow> error + byte list" where
  "pack_BBHB a b h c =
     (if 0 \<le> a \<and> a \<le> 255 \<and> 0 \<le> b \<and> b \<le> 255 \<and> 0 \<le> h \<and> h \<le> 65535 \<and> 0 \<le> c \<and> c \<le> 255
      then Inr [word_of_int a, word_of_int b, word_of_int (h div 256), word_of_int (h mod 256),
                word_of_int c]
      else Inl StructError)"

text \<open>\<open>xs[a:b]\<close>: a negative bound counts from the end, and both bounds are clipped.\<close>

definition clip :: "int \<Rightarrow> int \<Rightarrow> int" where
  "clip n i = (if i < 0 then max 0 (n + i) else min n i)"

definition slice :: "'a list \<Rightarrow> int \<Rightarrow> int \<Rightarrow> 'a list" where
  "slice xs a b =
     (let n = int (length xs); lo = clip n a; hi = clip n b
      in take (nat (hi - lo)) (drop (nat lo) xs))"

definition hex_digit :: "nat \<Rightarrow> char" where
  "hex_digit d = ''0123456789abcdef'' ! d"

function hex_str :: "nat \<Rightarrow> string" where
  "hex_str n = (if n < 16 then [hex_digit n] else hex_str (n div 16) @ [hex_digit (n mod 16)])"
  by pat_completeness auto
termination
  by (relation "measure id") auto

declare hex_str.simps [simp del]

text \<open>\<open>'%x' % n\<close>\<close>

definition py_hex :: "int \<Rightarrow> string" where
  "py_hex n = (if n < 0 then CHR ''-'' # hex_str (nat (- n)) else hex_str (nat n))"

subsection \<open>Values handed to \<open>ord\<close> and \<open>range\<close>\<close>

text \<open>
  Two built-ins that the module calls accept values of one type only: \<open>ord\<close> takes a
  string of length one, \<open>range\<close> takes integers. The module hands an element of a
  \<open>bytes\<close> object to the first and the result of a division to the second. A float is
  kept as the two operands of the division that made it: nothing in the module reads its
  value.
\<close>

datatype py_value = IntVal int | StrVal string | FloatVal int int

fun py_ord :: "py_value \<Rightarrow> error + int" where
  "py_ord (StrVal [c]) = Inr (of_char c)"
| "py_ord v = Inl TypeError"

text \<open>\<open>a / b\<close> on two integers\<close>

definition true_div :: "int \<Rightarrow> int \<Rightarrow> error + py_value" where
  "true_div a b = (if b = 0 then Inl ZeroDivisionError else Inr (FloatVal a b))"

subsection \<open>The frame encoder (the first lines of \<open>sendMessage\<close>)\<close>

text \<open>\<open>for c in data: message += struct.pack(">B", c)\<close>\<close>

fun pack_data :: "byte list \<Rightarrow> int list \<Rightarrow> error + byte list" where
  "pack_data message [] = Inr message"
| "pack_data message (c # cs) =
     (case pack_B c of
        Inl e \<Rightarrow> Inl e
      | Inr m \<Rightarrow> pack_data (message @ m) cs)"

text \<open>
  \<open>for c in message: checksum ^= ord(c)\<close>, over the bytes of the message still to come.
  \<open>message\<close> is a \<open>bytes\<close> object, so \<open>c\<close> is an integer.
\<close>

fun checksum_loop :: "int \<Rightarrow> byte list \<Rightarrow> error + int" where
  "checksum_loop checksum [] = Inr checksum"
| "checksum_loop checksum (c # cs) =
     (case py_ord (IntVal (uint c)) of
        Inl e \<Rightarrow> Inl e
      | Inr v \<Rightarrow> checksum_loop (checksum XOR v) cs)"

definition encode_message :: "int \<Rightarrow> int list \<Rightarrow> error + byte list" where
  "encode_message sq data =
     (case pack_BBHB 0x1B sq (int (length data)) 0x0E of
        Inl e \<Rightarrow> Inl e
      | Inr header \<Rightarrow>
          (case pack_data header data of
             Inl e \<Rightarrow> Inl e
           | Inr message \<Rightarrow>
               (case checksum_loop 0 message of
                  Inl e \<Rightarrow> Inl e
                | Inr checksum \<Rightarrow>
                    (case pack_B checksum of
                       Inl e \<Rightarrow> Inl e
                     | Inr c \<Rightarrow> Inr (message @ c)))))"

subsection \<open>The frame decoder \<open>recvMessage\<close>\<close>

datatype pstate = Start | GetSeq | MsgSize1 | MsgSize2 | Token | Data | Checksum

text \<open>
  The loop of \<open>recvMessage\<close> over the reads still to come, with the local variables
  \<open>state\<close>, \<open>checksum\<close>, \<open>msgSize\<close> and \<open>data\<close>. It returns the reads it has not used.
\<close>

fun recv_loop ::
  "pstate \<Rightarrow> int \<Rightarrow> int \<Rightarrow> int list \<Rightarrow> byte option list \<Rightarrow> (error + int list) \<times> byte option list"
where
  "recv_loop st checksum msgSize data [] = (Inl (IspError ''Timeout''), [])"
| "recv_loop st checksum msgSize data (None # rest) = (Inl (IspError ''Timeout''), rest)"
| "recv_loop st checksum msgSize data (Some s # rest) =
     (let b = uint s; checksum = checksum XOR b in
      case st of
        Start \<Rightarrow>
          if b = 0x1B then recv_loop GetSeq 0x1B msgSize data rest
          else recv_loop Start checksum msgSize data rest
      | GetSeq \<Rightarrow> recv_loop MsgSize1 checksum msgSize data rest
      | MsgSize1 \<Rightarrow> recv_loop MsgSize2 checksum (push_bit 8 b) data rest
      | MsgSize2 \<Rightarrow> recv_loop Token checksum (msgSize OR b) data rest
      | Token \<Rightarrow>
          if b \<noteq> 0x0E then recv_loop Start checksum msgSize data rest
          else recv_loop Data checksum msgSize [] rest
      | Data \<Rightarrow>
          if int (length (data @ [b])) = msgSize
          then recv_loop Checksum checksum msgSize (data @ [b]) rest
          else recv_loop Data checksum msgSize (data @ [b]) rest
      | Checksum \<Rightarrow>
          if checksum \<noteq> 0 then recv_loop Start checksum msgSize data rest
          else (Inr data, rest))"

text \<open>
  \<open>msgSize\<close> and \<open>data\<close> are unbound when the loop starts; each is assigned before the
  first state that reads it, so the values they start with here are never read.
\<close>

definition recvMessage :: "state \<Rightarrow> (error + int list) \<times> state" where
  "recvMessage s =
     (case serial s of
        None \<Rightarrow> (Inl AttributeError, s)
      | Some p \<Rightarrow>
          (case recv_loop Start 0 0 [] (rx s) of
             (r, rest) \<Rightarrow> (r, s\<lparr>rx := rest\<rparr>)))"

subsection \<open>\<open>sendMessage\<close>\<close>

text \<open>
  The frame is built first, and an exception raised there leaves the object as it was.
  Writing to a port that is not there is an \<open>AttributeError\<close>. The \<open>except\<close> clause
  names \<open>Serial.SerialTimeoutException\<close>, and class \<open>Serial\<close> has no attribute of that
  name (the exception is a name of the module \<open>serial\<close>): when the write raises, the
  clause is evaluated and raises \<open>AttributeError\<close> in its turn, so the line below it is
  not reached. The sequence number is incremented once the write and the flush have
  returned.
\<close>

definition sendMessage :: "int list \<Rightarrow> state \<Rightarrow> (error + int list) \<times> state" where
  "sendMessage data s =
     (case encode_message (seq s) data of
        Inl e \<Rightarrow> (Inl e, s)
      | Inr message \<Rightarrow>
          (case serial s of
             None \<Rightarrow> (Inl AttributeError, s)
           | Some p \<Rightarrow>
               (case wr s of
                  True # ws \<Rightarrow> (Inl AttributeError, s\<lparr>wr := ws\<rparr>)
                | _ \<Rightarrow>
                    recvMessage
                      (s\<lparr>wr := tl (wr s),
                         trace := trace s @ [Write message, Flush],
                         seq := (seq s + 1) AND 0xFF\<rparr>))))"

subsection \<open>\<open>close\<close>, \<open>connect\<close>, \<open>leaveISP\<close>, \<open>isConnected\<close>\<close>

definition close :: "state \<Rightarrow> state" where
  "close s =
     (case serial s of
        None \<Rightarrow> s
      | Some p \<Rightarrow> s\<lparr>serial := None, trace := trace s @ [Close (port p)]\<rparr>)"

definition enter_progmode :: "int list" where
  "enter_progmode = [0x10, 0xc8, 0x64, 0x19, 0x20, 0x00, 0x53, 0x03, 0xac, 0x53, 0x00, 0x00]"

text \<open>
  \<open>connect\<close>, first part: an open port is closed, then the constructor \<open>Serial(...)\<close>
  is called, and either of its exceptions becomes an \<open>IspError\<close>.
\<close>

definition open_serial :: "string \<Rightarrow> int \<Rightarrow> state \<Rightarrow> (error + unit) \<times> state" where
  "open_serial prt speed s =
     (let s1 = (if serial s \<noteq> None then close s else s) in
      case opens s1 of
        OpenSerialException # os \<Rightarrow>
          (Inl (IspError ''Failed to open serial port''), s1\<lparr>opens := os\<rparr>)
      | OpenOtherException exc # os \<Rightarrow>
          (Inl (IspError (''Unexpected error while connecting to serial port:'' @ prt @ '':'' @ exc)),
           s1\<lparr>opens := os\<rparr>)
      | _ \<Rightarrow>
          (Inr (),
           s1\<lparr>serial := Some \<lparr>port = prt, baudrate = speed, timeout = 1, writeTimeout = 10000\<rparr>,
              opens := tl (opens s1),
              trace := trace s1 @ [Open prt speed]\<rparr>))"

text \<open>
  \<open>connect\<close>, second part: the sequence number is set to 1, the controller is reset over
  DTR and both buffers are flushed.
\<close>

definition reset_controller :: "state \<Rightarrow> state" where
  "reset_controller s =
     s\<lparr>seq := 1,
       trace := trace s @ [SetDTR 1, Sleep 100, SetDTR 0, Sleep 200, FlushInput, FlushOutput]\<rparr>"

definition connect :: "string \<Rightarrow> int \<Rightarrow> state \<Rightarrow> (error + unit) \<times> state" where
  "connect prt speed s =
     (case open_serial prt speed s of
        (Inl e, s1) \<Rightarrow> (Inl e, s1)
      | (Inr u, s2) \<Rightarrow>
          (case sendMessage [1] (reset_controller s2) of
             (Inl e, s4) \<Rightarrow> (Inl e, s4)
           | (Inr sync, s4) \<Rightarrow>
               (case sendMessage enter_progmode s4 of
                  (Inl e, s5) \<Rightarrow> (Inl e, s5)
                | (Inr reply, s5) \<Rightarrow>
                    if reply \<noteq> [0x10, 0x00]
                    then (Inl (IspError ''Failed to enter programming mode''), close s5)
                    else (Inr (),
                          s5\<lparr>serial := map_option (\<lambda>p. p\<lparr>timeout := 5\<rparr>) (serial s5)\<rparr>))))"

definition leaveISP :: "state \<Rightarrow> (error + serial_port option) \<times> state" where
  "leaveISP s =
     (case serial s of
        None \<Rightarrow> (Inr None, s)
      | Some p \<Rightarrow>
          (case sendMessage [0x11] s of
             (Inl e, s1) \<Rightarrow> (Inl e, s1)
           | (Inr reply, s1) \<Rightarrow>
               if reply \<noteq> [0x11, 0x00]
               then (Inl (IspError ''Failed to leave programming mode''), s1)
               else (Inr (serial s1), s1\<lparr>serial := None\<rparr>)))"

definition isConnected :: "state \<Rightarrow> bool" where
  "isConnected s = (serial s \<noteq> None)"

subsection \<open>\<open>writeFlash\<close>\<close>

text \<open>The command both \<open>writeFlash\<close> and \<open>verifyFlash\<close> start with.\<close>

definition load_address :: "int \<Rightarrow> int list" where
  "load_address flashSize =
     (if flashSize > 0xFFFF then [0x06, 0x80, 0x00, 0x00, 0x00]
      else [0x06, 0x00, 0x00, 0x00, 0x00])"

definition program_page :: "int \<Rightarrow> int list \<Rightarrow> int \<Rightarrow> int list" where
  "program_page pageSize flashData i =
     [0x13, drop_bit 8 pageSize, pageSize AND 0xFF, 0xc1, 0x0a, 0x40, 0x4c, 0x20, 0x00, 0x00]
     @ slice flashData (i * pageSize) (i * pageSize + pageSize)"

text \<open>\<open>for i in range(0, loadCount)\<close>, over the values of \<open>i\<close> still to come.\<close>

fun writeFlash_loop ::
  "int list \<Rightarrow> int \<Rightarrow> int \<Rightarrow> int list \<Rightarrow> state \<Rightarrow> (error + unit) \<times> state"
where
  "writeFlash_loop [] pageSize loadCount flashData s = (Inr (), s)"
| "writeFlash_loop (i # rest) pageSize loadCount flashData s =
     (case sendMessage (program_page pageSize flashData i) s of
        (Inl e, s1) \<Rightarrow> (Inl e, s1)
      | (Inr recv, s1) \<Rightarrow>
          writeFlash_loop rest pageSize loadCount flashData
            (if progressCallback s1
             then s1\<lparr>trace := trace s1 @ [Progress (i + 1) (loadCount * 2)]\<rparr>
             else s1))"

text \<open>
  \<open>loadCount\<close> is the result of a true division, and \<open>range(0, loadCount)\<close> accepts
  an integer only.
\<close>

definition writeFlash :: "int list \<Rightarrow> state \<Rightarrow> (error + unit) \<times> state" where
  "writeFlash flashData s =
     (let pageSize = chip_pageSize s * 2;
          flashSize = pageSize * chip_pageCount s
      in case sendMessage (load_address flashSize) s of
           (Inl e, s1) \<Rightarrow> (Inl e, s1)
         | (Inr recv, s1) \<Rightarrow>
             (case true_div (int (length flashData) + pageSize - 1) pageSize of
                Inl e \<Rightarrow> (Inl e, s1)
              | Inr (IntVal loadCount) \<Rightarrow>
                  writeFlash_loop (map int [0 ..< nat loadCount]) pageSize loadCount flashData s1
              | Inr v \<Rightarrow> (Inl TypeError, s1)))"

subsection \<open>\<open>verifyFlash\<close>\<close>

text \<open>\<open>for j in range(0, 0x100)\<close>, over the values of \<open>j\<close> still to come.\<close>

fun verify_block :: "int list \<Rightarrow> int \<Rightarrow> int list \<Rightarrow> int list \<Rightarrow> error + unit" where
  "verify_block [] i flashData recv = Inr ()"
| "verify_block (j # rest) i flashData recv =
     (if i * 0x100 + j < int (length flashData) then
        (if length recv \<le> nat j then Inl IndexError
         else if flashData ! nat (i * 0x100 + j) \<noteq> recv ! nat j
         then Inl (IspError (''Verify error at: 0x'' @ py_hex (i * 0x100 + j)))
         else verify_block rest i flashData recv)
      else verify_block rest i flashData recv)"

fun verifyFlash_loop :: "int list \<Rightarrow> int \<Rightarrow> int list \<Rightarrow> state \<Rightarrow> (error + unit) \<times> state" where
  "verifyFlash_loop [] loadCount flashData s = (Inr (), s)"
| "verifyFlash_loop (i # rest) loadCount flashData s =
     (case sendMessage [0x14, 0x01, 0x00, 0x20] s of
        (Inl e, s1) \<Rightarrow> (Inl e, s1)
      | (Inr reply, s1) \<Rightarrow>
          (let recv = slice reply 2 0x102;
               s2 = (if progressCallback s1
                     then s1\<lparr>trace := trace s1 @ [Progress (loadCount + i + 1) (loadCount * 2)]\<rparr>
                     else s1)
           in case verify_block (map int [0 ..< 0x100]) i flashData recv of
                Inl e \<Rightarrow> (Inl e, s2)
              | Inr u \<Rightarrow> verifyFlash_loop rest loadCount flashData s2))"

definition verifyFlash :: "int list \<Rightarrow> state \<Rightarrow> (error + unit) \<times> state" where
  "verifyFlash flashData s =
     (let flashSize = chip_pageSize s * 2 * chip_pageCount s
      in case sendMessage (load_address flashSize) s of
           (Inl e, s1) \<Rightarrow> (Inl e, s1)
         | (Inr recv, s1) \<Rightarrow>
             (case true_div (int (length flashData) + 0xFF) 0x100 of
                Inl e \<Rightarrow> (Inl e, s1)
              | Inr (IntVal loadCount) \<Rightarrow>
                  verifyFlash_loop (map int [0 ..< nat loadCount]) loadCount flashData s1
              | Inr v \<Rightarrow> (Inl TypeError, s1)))"

subsection \<open>Notions used to state the properties\<close>

text \<open>
  The object as \<open>__init__\<close> leaves it, for a chip with the given page size and page
  count, in front of a line that will deliver the given reads.
\<close>

definition Stk500v2_init :: "int \<Rightarrow> int \<Rightarrow> byte option list \<Rightarrow> state" where
  "Stk500v2_init pageSize pageCount reads =
     \<lparr>serial = None, seq = 1, lastAddr = - 1, progressCallback = False,
      chip_pageSize = pageSize, chip_pageCount = pageCount,
      rx = reads, wr = [], opens = [], trace = []\<rparr>"

text \<open>The port \<open>connect\<close> opens when it is called with its default arguments.\<close>

definition com22 :: serial_port where
  "com22 = \<lparr>port = ''COM22'', baudrate = 115200, timeout = 1, writeTimeout = 10000\<rparr>"

text \<open>
  The layout of a frame on the wire, as the decoder reads it and as the calls of
  \<open>struct.pack\<close> in \<open>sendMessage\<close> lay it out: the five bytes in front of the payload
  (start marker, sequence number, length, token), with the token as a parameter so that a
  frame with a wrong token can be written down, and the bytes of a frame in front of its
  checksum.
\<close>

definition header :: "byte \<Rightarrow> nat \<Rightarrow> byte \<Rightarrow> byte list" where
  "header s n t = [0x1B, s, word_of_int (int n div 256), word_of_int (int n mod 256), t]"

definition frame_bytes :: "int \<Rightarrow> int list \<Rightarrow> byte list" where
  "frame_bytes sq data = header (word_of_int sq) (length data) 0x0E @ map word_of_int data"

text \<open>
  The frame with a given sequence number and payload, its last byte the XOR of the bytes
  before it.
\<close>

definition frame :: "int \<Rightarrow> int list \<Rightarrow> byte list" where
  "frame sq data = frame_bytes sq data @ [foldl (XOR) 0 (frame_bytes sq data)]"

text \<open>
  The sequence numbers and payloads of the frames the decoder can return: a sequence
  number that fits a byte and a payload of at least one and at most 65535 bytes.
\<close>

definition valid_reply :: "int \<times> int list \<Rightarrow> bool" where
  "valid_reply r =
     (0 \<le> fst r \<and> fst r \<le> 255 \<and> snd r \<noteq> [] \<and> length (snd r) \<le> 65535 \<and>
      list_all (\<lambda>c. 0 \<le> c \<and> c \<le> 255) (snd r))"

text \<open>
  The reads that deliver the frames of a list of replies, one frame after the other.
\<close>

definition reply_stream :: "(int \<times> int list) list \<Rightarrow> byte option list" where
  "reply_stream rs = concat (map (\<lambda>r. map Some (frame (fst r) (snd r))) rs)"

text \<open>
  The value of \<open>checksum\<close> in \<open>recvMessage\<close> after \<open>checksum ^= b\<close> has run over the
  given bytes.
\<close>

definition xor_bytes :: "int \<Rightarrow> byte list \<Rightarrow> int" where
  "xor_bytes checksum message = foldl (\<lambda>a c. a XOR uint c) checksum message"

text \<open>The frames written, in order, among the events of a trace.\<close>

fun written :: "event list \<Rightarrow> byte list list" where
  "written [] = []"
| "written (Write m # es) = m # written es"
| "written (e # es) = written es"


section \<open>Properties\<close>

subsection \<open>The encoder\<close>

lemma pack_data_eq:
  "pack_data m data = Inr r \<longleftrightarrow> (\<forall>c\<in>set data. 0 \<le> c \<and> c \<le> 255) \<and> r = m @ map word_of_int data"
  by (induction data arbitrary: m) (auto simp: pack_B_def)

lemma pack_data_ok:
  "\<forall>c\<in>set data. 0 \<le> c \<and> c \<le> 255 \<Longrightarrow> pack_data m data = Inr (m @ map word_of_int data)"
  by (simp add: pack_data_eq)

lemma pack_data_bad:
  "\<not> (\<forall>c\<in>set data. 0 \<le> c \<and> c \<le> 255) \<Longrightarrow> pack_data m data = Inl StructError"
  by (induction data arbitrary: m) (auto simp: pack_B_def)

text \<open>The loop over the bytes of the message raises in its first pass.\<close>

lemma checksum_loop_raises: "message \<noteq> [] \<Longrightarrow> checksum_loop checksum message = Inl TypeError"
  by (cases message) simp_all

text \<open>
  So the encoder returns no frame: it raises \<open>struct.error\<close> when the sequence number,
  the length or a byte of the payload is out of range, and \<open>TypeError\<close> otherwise.
\<close>

lemma encode_message_raises:
  "encode_message sq data =
     (if 0 \<le> sq \<and> sq \<le> 255 \<and> length data \<le> 65535 \<and> (\<forall>c\<in>set data. 0 \<le> c \<and> c \<le> 255)
      then Inl TypeError else Inl StructError)"
proof (cases "0 \<le> sq \<and> sq \<le> 255 \<and> length data \<le> 65535")
  case hdr: True
  show ?thesis
  proof (cases "\<forall>c\<in>set data. 0 \<le> c \<and> c \<le> 255")
    case True
    with hdr show ?thesis
      by (simp add: encode_message_def pack_BBHB_def pack_data_ok checksum_loop_raises)
  next
    case False
    with hdr show ?thesis
      by (simp add: encode_message_def pack_BBHB_def pack_data_bad)
  qed
next
  case False
  then show ?thesis
    by (auto simp: encode_message_def pack_BBHB_def)
qed

lemma sendMessage_raises:
  "sendMessage data s =
     (if 0 \<le> seq s \<and> seq s \<le> 255 \<and> length data \<le> 65535 \<and> (\<forall>c\<in>set data. 0 \<le> c \<and> c \<le> 255)
      then (Inl TypeError, s) else (Inl StructError, s))"
  by (simp add: sendMessage_def encode_message_raises)

text \<open>
  Claim C2. The bytes of every frame the encoder produces (header, sequence number, the
  two length bytes, token, payload and checksum) XOR to 0. The encoder lays out the
  header and the payload and then computes the checksum with \<open>ord(c)\<close> over the bytes
  of the message. An element of a \<open>bytes\<close> object is an integer, and \<open>ord\<close> of an
  integer raises \<open>TypeError\<close>: for sequence number 1 and payload \<open>[0x11]\<close> the loop
  over the six bytes \<open>1B 01 00 01 0E 11\<close> raises, and the encoder produces no frame.
\<close>

theorem encode_message_no_frame:
  "pack_data [0x1B, 0x01, 0x00, 0x01, 0x0E] [0x11] = Inr [0x1B, 0x01, 0x00, 0x01, 0x0E, 0x11] \<and>
   checksum_loop 0 [0x1B, 0x01, 0x00, 0x01, 0x0E, 0x11] = Inl TypeError \<and>
   encode_message 1 [0x11] = Inl TypeError"
  by (simp add: encode_message_def pack_BBHB_def pack_B_def)

text \<open>
  The frame that the layout describes does have the property: the checksum byte is the
  XOR of the bytes before it, so all the bytes of the frame XOR to 0.
\<close>

lemma frame_xor: "foldl (XOR) 0 (frame sq data) = 0"
  by (simp add: frame_def)

subsection \<open>Decoding one frame\<close>

lemma xor_bytes_uint: "xor_bytes (uint w) bs = uint (foldl (XOR) w bs)"
  by (induction bs arbitrary: w) (simp_all add: xor_bytes_def flip: uint_xor)

lemma xor_bytes_append: "xor_bytes c (xs @ ys) = xor_bytes (xor_bytes c xs) ys"
  by (simp add: xor_bytes_def)

lemma xor_bytes_0: "xor_bytes 0 bs = uint (foldl (XOR) 0 bs)"
  using xor_bytes_uint [of 0 bs] by simp

lemma push_or_int: "push_bit 8 (n div 256) OR (n mod 256) = (n::int)"
proof -
  have "push_bit 8 (drop_bit 8 n) OR take_bit 8 n = n"
    by (metis bits_ident concat_bit_def concat_bit_eq or.commute add.commute)
  then show ?thesis by (simp add: drop_bit_eq_div take_bit_eq_mod)
qed

lemma msgSize_eq:
  assumes "0 \<le> n" "n \<le> 65535"
  shows "push_bit 8 (uint (word_of_int (n div 256) :: byte)) OR uint (word_of_int (n mod 256) :: byte) = n"
proof -
  have a: "uint (word_of_int (n div 256) :: byte) = n div 256"
    using assms by (simp add: uint_word_of_int)
  have b: "uint (word_of_int (n mod 256) :: byte) = n mod 256"
    by (simp add: uint_word_of_int)
  show ?thesis unfolding a b by (rule push_or_int)
qed

lemma recv_data:
  "bs \<noteq> [] \<Longrightarrow> int (length d + length bs) = sz \<Longrightarrow>
   recv_loop Data ck sz d (map Some bs @ rest) =
   recv_loop Checksum (xor_bytes ck bs) sz (d @ map uint bs) rest"
proof (induction bs arbitrary: d ck)
  case Nil
  then show ?case by simp
next
  case (Cons b bs)
  show ?case
  proof (cases bs)
    case Nil
    with Cons.prems show ?thesis by (simp add: xor_bytes_def Let_def)
  next
    case (Cons b' bs')
    then have ne: "bs \<noteq> []" by simp
    have len: "int (length (d @ [uint b]) + length bs) = sz" using Cons.prems by simp
    have "int (length (d @ [uint b])) \<noteq> sz" using Cons.prems ne by (cases bs) auto
    then have "recv_loop Data ck sz d (map Some (b # bs) @ rest) =
               recv_loop Data (ck XOR uint b) sz (d @ [uint b]) (map Some bs @ rest)"
      by (simp add: Let_def)
    also have "\<dots> = recv_loop Checksum (xor_bytes (ck XOR uint b) bs) sz ((d @ [uint b]) @ map uint bs) rest"
      by (rule Cons.IH [OF ne len])
    finally show ?thesis by (simp add: xor_bytes_def)
  qed
qed


lemma uint_byte_eq:
  "0 \<le> k \<Longrightarrow> k \<le> 255 \<Longrightarrow> uint (b::byte) = k \<longleftrightarrow> b = word_of_int k"
  by (auto simp: uint_word_of_int)

lemma uint_1B: "uint (b::byte) = 0x1B \<longleftrightarrow> b = 0x1B"
  using uint_byte_eq [of "0x1B" b] by simp

lemma uint_0E: "uint (b::byte) = 0x0E \<longleftrightarrow> b = 0x0E"
  using uint_byte_eq [of "0x0E" b] by simp

lemma recv_noise:
  "0x1B \<notin> set bs \<Longrightarrow>
   recv_loop Start ck sz d (map Some bs @ rest) = recv_loop Start (xor_bytes ck bs) sz d rest"
proof (induction bs arbitrary: ck)
  case Nil
  then show ?case by (simp add: xor_bytes_def)
next
  case (Cons b bs)
  then have "b \<noteq> 0x1B" by auto
  then have "uint b \<noteq> 0x1B" by (simp add: uint_1B)
  with Cons show ?case by (simp add: Let_def xor_bytes_def)
qed


lemma recv_header:
  assumes "n \<le> 65535"
  shows "recv_loop Start ck sz d (map Some (header s n t) @ rest) =
         (if t = 0x0E then recv_loop Data (xor_bytes 0 (header s n t)) (int n) [] rest
          else recv_loop Start (xor_bytes 0 (header s n t)) (int n) d rest)"
proof -
  have sz: "push_bit 8 (uint (word_of_int (int n div 256) :: byte)) OR
            uint (word_of_int (int n mod 256) :: byte) = int n"
    using assms by (intro msgSize_eq) simp_all
  show ?thesis
    by (simp add: header_def Let_def sz xor_bytes_def uint_0E)
qed

lemma xor_uint_zero: "uint (x::byte) XOR uint c = 0 \<longleftrightarrow> c = x"
proof -
  have "uint x XOR uint c = uint (x XOR c)" by (simp add: uint_xor)
  also have "\<dots> = 0 \<longleftrightarrow> x XOR c = 0" by (simp add: uint_0_iff)
  also have "\<dots> \<longleftrightarrow> c = x" by (metis xor.left_neutral xor.assoc xor_self_eq)
  finally show ?thesis .
qed

lemma recv_frame:
  assumes "p \<noteq> []" "length p \<le> 65535"
  shows "recv_loop Start ck sz d (map Some (header s (length p) 0x0E @ p @ [c]) @ rest) =
         (if c = foldl (XOR) 0 (header s (length p) 0x0E @ p) then (Inr (map uint p), rest)
          else recv_loop Start (xor_bytes 0 (header s (length p) 0x0E @ p @ [c]))
                 (int (length p)) (map uint p) rest)"
proof -
  let ?h = "header s (length p) 0x0E"
  have "recv_loop Start ck sz d (map Some (?h @ p @ [c]) @ rest) =
        recv_loop Start ck sz d (map Some ?h @ (map Some p @ Some c # rest))"
    by simp
  also have "\<dots> = recv_loop Data (xor_bytes 0 ?h) (int (length p)) [] (map Some p @ Some c # rest)"
    using assms(2) by (simp add: recv_header del: map_append)
  also have "\<dots> = recv_loop Checksum (xor_bytes (xor_bytes 0 ?h) p) (int (length p))
                      ([] @ map uint p) (Some c # rest)"
    using assms(1) by (intro recv_data) simp_all
  also have "xor_bytes (xor_bytes 0 ?h) p = uint (foldl (XOR) 0 (?h @ p))"
    by (simp add: xor_bytes_0 xor_bytes_uint)
  finally have step: "recv_loop Start ck sz d (map Some (?h @ p @ [c]) @ rest) =
        recv_loop Checksum (uint (foldl (XOR) 0 (?h @ p))) (int (length p)) (map uint p)
          (Some c # rest)"
    by simp
  have ck: "xor_bytes 0 (?h @ p @ [c]) = uint (foldl (XOR) 0 (?h @ p)) XOR uint c"
    using xor_bytes_append [of 0 "?h @ p" "[c]"] by (simp add: xor_bytes_0) (simp add: xor_bytes_def)
  show ?thesis
    unfolding step ck by (simp add: Let_def xor_uint_zero)
qed

lemma map_uint_bytes:
  "\<forall>c\<in>set data. 0 \<le> c \<and> c \<le> 255 \<Longrightarrow> map uint (map word_of_int data :: byte list) = data"
  by (induction data) (simp_all add: uint_word_of_int)

lemma recv_loop_frame:
  assumes "valid_reply (sq, data)"
  shows "recv_loop Start ck sz d (map Some (frame sq data) @ rest) = (Inr data, rest)"
proof -
  let ?p = "map word_of_int data :: byte list"
  let ?h = "header (word_of_int sq) (length ?p) 0x0E"
  from assms have rng: "\<forall>c\<in>set data. 0 \<le> c \<and> c \<le> 255" and len: "length ?p \<le> 65535"
    and ne: "?p \<noteq> []"
    by (simp_all add: valid_reply_def list_all_iff)
  have f: "frame sq data = ?h @ ?p @ [foldl (XOR) 0 (?h @ ?p)]"
    by (simp add: frame_def frame_bytes_def)
  from recv_frame [OF ne len, of ck sz d "word_of_int sq" "foldl (XOR) 0 (?h @ ?p)" rest]
  have "recv_loop Start ck sz d (map Some (?h @ ?p @ [foldl (XOR) 0 (?h @ ?p)]) @ rest) =
        (Inr (map uint ?p), rest)"
    by simp
  then show ?thesis unfolding f by (simp only: map_uint_bytes [OF rng])
qed

lemma recvMessage_frame:
  assumes "serial s = Some p" "rx s = map Some (frame sq data) @ rest"
    and "valid_reply (sq, data)"
  shows "recvMessage s = (Inr data, s\<lparr>rx := rest\<rparr>)"
  using assms by (simp add: recvMessage_def recv_loop_frame)

subsection \<open>Round trip\<close>

text \<open>
  Claim C1. Decoding what the encoder produced gives the payload back, for every sequence
  number 0--255 and every payload of 0--2047 bytes. The encoder produces nothing to
  decode: for sequence number 1 and the empty payload it raises \<open>TypeError\<close> in the
  loop that computes the checksum, as it does for every payload. And the decoder does not
  return the payload of the frame that the layout gives for that input: it compares the
  number of bytes it has collected with \<open>msgSize\<close> only after it has appended a byte, so
  a frame whose length field is 0 never leaves state \<open>Data\<close>. The frame
  \<open>1B 01 00 00 0E 14\<close> is read to its end and the decoder fails with a timeout.
\<close>

theorem decode_empty_payload:
  "encode_message 1 [] = Inl TypeError \<and>
   frame 1 [] = [0x1B, 0x01, 0x00, 0x00, 0x0E, 0x14] \<and>
   recvMessage ((Stk500v2_init 128 1024 (map Some [0x1B, 0x01, 0x00, 0x00, 0x0E, 0x14]))
                  \<lparr>serial := Some com22\<rparr>) =
     (Inl (IspError ''Timeout''), (Stk500v2_init 128 1024 [])\<lparr>serial := Some com22\<rparr>)"
  by (simp add: encode_message_def pack_BBHB_def frame_def frame_bytes_def header_def
      recvMessage_def Stk500v2_init_def Let_def)

text \<open>
  The decoder does return the payload of a frame whose payload is not empty
  (\<open>recvMessage_frame\<close> above), and the frame of the example is the one the
  specification gives.
\<close>

lemma example_frame:
  "frame 1 [0x11] =
     [0x1B, 0x01, 0x00, 0x01, 0x0E, 0x11, 0x1B XOR 0x01 XOR 0x00 XOR 0x01 XOR 0x0E XOR 0x11]"
  by (simp add: frame_def frame_bytes_def header_def)

lemma example_decoded:
  "recv_loop Start 0 0 [] (map Some [0x1B, 0x01, 0x00, 0x01, 0x0E, 0x11, 0x04]) = (Inr [0x11], [])"
  by (simp add: Let_def)

subsection \<open>Read timeouts\<close>

lemma recv_loop_timeout_or_result:
  "(\<exists>data k. k \<le> length bs \<and>
       recv_loop st ck sz d (map Some bs @ None # rest) = (Inr data, map Some (drop k bs) @ None # rest)) \<or>
   recv_loop st ck sz d (map Some bs @ None # rest) = (Inl (IspError ''Timeout''), rest)"
proof (induction bs arbitrary: st ck sz d)
  case Nil
  then show ?case by simp
next
  case (Cons b bs)
  have step: "st = Checksum \<and> ck XOR uint b = 0 \<and>
                recv_loop st ck sz d (map Some (b # bs) @ None # rest) = (Inr d, map Some bs @ None # rest)
              \<or> (\<exists>st' ck' sz' d'. recv_loop st ck sz d (map Some (b # bs) @ None # rest) =
                    recv_loop st' ck' sz' d' (map Some bs @ None # rest))"
    by (cases st) (auto simp: Let_def)
  then show ?case
  proof
    assume a: "st = Checksum \<and> ck XOR uint b = 0 \<and>
                recv_loop st ck sz d (map Some (b # bs) @ None # rest) = (Inr d, map Some bs @ None # rest)"
    have "(1::nat) \<le> length (b # bs) \<and>
          recv_loop st ck sz d (map Some (b # bs) @ None # rest) =
            (Inr d, map Some (drop 1 (b # bs)) @ None # rest)"
      using a by simp
    then show ?thesis by blast
  next
    assume "\<exists>st' ck' sz' d'. recv_loop st ck sz d (map Some (b # bs) @ None # rest) =
                    recv_loop st' ck' sz' d' (map Some bs @ None # rest)"
    then obtain st' ck' sz' d' where eq: "recv_loop st ck sz d (map Some (b # bs) @ None # rest) =
                    recv_loop st' ck' sz' d' (map Some bs @ None # rest)" by blast
    from Cons.IH [of st' ck' sz' d'] show ?thesis
    proof
      assume "\<exists>data k. k \<le> length bs \<and>
          recv_loop st' ck' sz' d' (map Some bs @ None # rest) = (Inr data, map Some (drop k bs) @ None # rest)"
      then obtain data k where k: "k \<le> length bs"
        and r: "recv_loop st' ck' sz' d' (map Some bs @ None # rest) = (Inr data, map Some (drop k bs) @ None # rest)"
        by blast
      have "Suc k \<le> length (b # bs) \<and>
            recv_loop st ck sz d (map Some (b # bs) @ None # rest) =
              (Inr data, map Some (drop (Suc k) (b # bs)) @ None # rest)"
        using k r eq by simp
      then show ?thesis by blast
    next
      assume "recv_loop st' ck' sz' d' (map Some bs @ None # rest) = (Inl (IspError ''Timeout''), rest)"
      with eq show ?thesis by simp
    qed
  qed
qed

text \<open>
  Claim C9. In whatever state the parser is, a read that yields no byte makes it fail
  with Timeout at once, leaving the later reads untouched. So when the reads are some
  bytes followed by a read that times out, \<open>recvMessage\<close> either has returned a payload
  before it reaches that read, or fails with Timeout at that very read; and it fails with
  Timeout when none of the bytes before it is the start marker \<open>0x1B\<close>.
\<close>

theorem recvMessage_timeout:
  assumes "serial s = Some p" and "rx s = map Some bs @ None # rest"
  shows "recv_loop st ck sz d (None # rest) = (Inl (IspError ''Timeout''), rest) \<and>
         ((\<exists>data k. k \<le> length bs \<and>
             recvMessage s = (Inr data, s\<lparr>rx := map Some (drop k bs) @ None # rest\<rparr>)) \<or>
          recvMessage s = (Inl (IspError ''Timeout''), s\<lparr>rx := rest\<rparr>)) \<and>
         (0x1B \<notin> set bs \<longrightarrow> recvMessage s = (Inl (IspError ''Timeout''), s\<lparr>rx := rest\<rparr>))"
proof (intro conjI impI)
  show "recv_loop st ck sz d (None # rest) = (Inl (IspError ''Timeout''), rest)" by simp
next
  from recv_loop_timeout_or_result [of bs Start 0 0 "[]" rest]
  show "(\<exists>data k. k \<le> length bs \<and>
             recvMessage s = (Inr data, s\<lparr>rx := map Some (drop k bs) @ None # rest\<rparr>)) \<or>
          recvMessage s = (Inl (IspError ''Timeout''), s\<lparr>rx := rest\<rparr>)"
    using assms by (auto simp: recvMessage_def)
next
  assume "0x1B \<notin> set bs"
  then have "recv_loop Start 0 0 [] (map Some bs @ None # rest) = (Inl (IspError ''Timeout''), rest)"
    by (simp add: recv_noise)
  then show "recvMessage s = (Inl (IspError ''Timeout''), s\<lparr>rx := rest\<rparr>)"
    using assms by (simp add: recvMessage_def)
qed

theorem recvMessage_timeout_witness:
  "recv_loop Data 5 2 [7] [None, Some 0x1B] = (Inl (IspError ''Timeout''), [Some 0x1B]) \<and>
   recvMessage ((Stk500v2_init 128 1024 [Some 0x07, Some 0x0E, None, Some 0x1B])\<lparr>serial := Some com22\<rparr>) =
     (Inl (IspError ''Timeout''), (Stk500v2_init 128 1024 [Some 0x1B])\<lparr>serial := Some com22\<rparr>)"
  using recvMessage_timeout [of "(Stk500v2_init 128 1024 [Some 0x07, Some 0x0E, None, Some 0x1B])\<lparr>serial := Some com22\<rparr>"
      com22 "[0x07, 0x0E]" "[Some 0x1B]" Data 5 2 "[7]"]
  by (simp add: Stk500v2_init_def)

subsection \<open>Resynchronisation\<close>

text \<open>
  Claim C3, as stated, for every corrupted frame followed by a valid one. After a wrong
  token the parser is back in \<open>Start\<close> and takes the next \<open>0x1B\<close> for a start marker,
  also when that byte belongs to the rest of the corrupted frame: with the token of the
  frame for payload \<open>[0x1B]\<close> replaced by \<open>0x00\<close>, the valid frame that follows is used
  up as the header of a frame that never comes, and the decoder fails with a timeout.
\<close>

theorem resync_false_start:
  "frame 1 [0x1B] = [0x1B, 0x01, 0x00, 0x01, 0x0E, 0x1B, 0x0E] \<and>
   frame 2 [0x11] = [0x1B, 0x02, 0x00, 0x01, 0x0E, 0x11, 0x07] \<and>
   recvMessage ((Stk500v2_init 128 1024
       (map Some ([0x1B, 0x01, 0x00, 0x01, 0x0E, 0x1B, 0x0E][4 := 0x00] @
                  [0x1B, 0x02, 0x00, 0x01, 0x0E, 0x11, 0x07])))\<lparr>serial := Some com22\<rparr>) =
     (Inl (IspError ''Timeout''), (Stk500v2_init 128 1024 [])\<lparr>serial := Some com22\<rparr>)"
  by (simp add: frame_def frame_bytes_def header_def recvMessage_def
      Stk500v2_init_def Let_def)

text \<open>
  Claim C3, amended. A valid frame is the frame of a sequence number 0--255 and a payload
  of bytes. Let a valid frame with a payload that is not empty be corrupted either in its
  checksum byte, or in its token byte while none of the bytes after the token is \<open>0x1B\<close>,
  and let a valid frame with a payload that is not empty follow it. Then the decoder skips
  the first and returns the payload of the second. The wrong token itself is skipped,
  also when it is \<open>0x1B\<close>.
\<close>

theorem resync_after_corrupted_frame:
  assumes V: "valid_reply (sqC, dataC)" "V = frame sqC dataC"
    and F: "valid_reply (sqF, dataF)" "F = frame sqF dataF"
    and C: "(C = butlast V @ [c] \<and> c \<noteq> last V) \<or>
            (C = V[4 := t] \<and> t \<noteq> 0x0E \<and> 0x1B \<notin> set (drop 5 V))"
    and s: "serial s = Some p" "rx s = map Some (C @ F) @ rest"
  shows "recvMessage s = (Inr dataF, s\<lparr>rx := rest\<rparr>)"
proof -
  let ?p = "map word_of_int dataC :: byte list"
  let ?h = "header (word_of_int sqC) (length ?p) 0x0E"
  let ?x = "foldl (XOR) 0 (?h @ ?p)"
  from V have len: "length ?p \<le> 65535" and Veq: "V = ?h @ ?p @ [?x]" and ne: "?p \<noteq> []"
    by (simp_all add: valid_reply_def frame_def frame_bytes_def)
  have "\<exists>ck sz d. recv_loop Start 0 0 [] (map Some C @ map Some F @ rest) =
                   recv_loop Start ck sz d (map Some F @ rest)"
    using C
  proof
    assume a: "C = butlast V @ [c] \<and> c \<noteq> last V"
    then have "C = ?h @ ?p @ [c]" and "c \<noteq> ?x"
      by (simp_all add: Veq butlast_append)
    with recv_frame [OF ne len, of 0 0 "[]" "word_of_int sqC" c "map Some F @ rest"]
    show ?thesis by auto
  next
    assume a: "C = V[4 := t] \<and> t \<noteq> 0x0E \<and> 0x1B \<notin> set (drop 5 V)"
    then have Ceq: "C = header (word_of_int sqC) (length ?p) t @ (?p @ [?x])"
      and noise: "0x1B \<notin> set (?p @ [?x])" and t: "t \<noteq> 0x0E"
      by (simp_all add: Veq header_def)
    have "recv_loop Start 0 0 [] (map Some C @ map Some F @ rest) =
          recv_loop Start 0 0 [] (map Some (header (word_of_int sqC) (length ?p) t)
             @ (map Some (?p @ [?x]) @ map Some F @ rest))"
      unfolding Ceq by simp
    also have "\<dots> = recv_loop Start (xor_bytes 0 (header (word_of_int sqC) (length ?p) t))
                        (int (length ?p)) [] (map Some (?p @ [?x]) @ map Some F @ rest)"
      using t len by (simp only: recv_header if_False)
    also have "\<dots> = recv_loop Start (xor_bytes (xor_bytes 0 (header (word_of_int sqC) (length ?p) t)) (?p @ [?x]))
                        (int (length ?p)) [] (map Some F @ rest)"
      by (rule recv_noise [OF noise])
    finally show ?thesis by blast
  qed
  then have "recv_loop Start 0 0 [] (map Some (C @ F) @ rest) = (Inr dataF, rest)"
    using recv_loop_frame [OF F(1)] F(2) by auto
  with s show ?thesis by (simp add: recvMessage_def)
qed

theorem resync_after_corrupted_frame_witness:
  "recvMessage ((Stk500v2_init 128 1024
       (map Some ([0x1B, 0x01, 0x00, 0x01, 0x1B, 0x11, 0x04] @
                  [0x1B, 0x02, 0x00, 0x01, 0x0E, 0x11, 0x07])))\<lparr>serial := Some com22\<rparr>) =
     (Inr [0x11], (Stk500v2_init 128 1024 [])\<lparr>serial := Some com22\<rparr>) \<and>
   recvMessage ((Stk500v2_init 128 1024
       (map Some ([0x1B, 0x01, 0x00, 0x01, 0x0E, 0x11, 0xFB] @
                  [0x1B, 0x02, 0x00, 0x01, 0x0E, 0x11, 0x07])))\<lparr>serial := Some com22\<rparr>) =
     (Inr [0x11], (Stk500v2_init 128 1024 [])\<lparr>serial := Some com22\<rparr>)"
proof -
  have vC: "valid_reply (1, [0x11])" and vF: "valid_reply (2, [0x11])"
    by (simp_all add: valid_reply_def)
  have V: "[0x1B, 0x01, 0x00, 0x01, 0x0E, 0x11, 0x04] = frame 1 [0x11]"
    by (simp add: frame_def frame_bytes_def header_def)
  have F: "[0x1B, 0x02, 0x00, 0x01, 0x0E, 0x11, 0x07] = frame 2 [0x11]"
    by (simp add: frame_def frame_bytes_def header_def)
  have tok: "([0x1B, 0x01, 0x00, 0x01, 0x1B, 0x11, 0x04] = butlast [0x1B, 0x01, 0x00, 0x01, 0x0E, 0x11, 0x04 :: byte] @ [0xFB]
               \<and> (0xFB::byte) \<noteq> last [0x1B, 0x01, 0x00, 0x01, 0x0E, 0x11, 0x04]) \<or>
             ([0x1B, 0x01, 0x00, 0x01, 0x1B, 0x11, 0x04] = [0x1B, 0x01, 0x00, 0x01, 0x0E, 0x11, 0x04 :: byte][4 := 0x1B]
               \<and> (0x1B::byte) \<noteq> 0x0E \<and> 0x1B \<notin> set (drop 5 [0x1B, 0x01, 0x00, 0x01, 0x0E, 0x11, 0x04 :: byte]))"
    by simp
  have cks: "([0x1B, 0x01, 0x00, 0x01, 0x0E, 0x11, 0xFB] = butlast [0x1B, 0x01, 0x00, 0x01, 0x0E, 0x11, 0x04 :: byte] @ [0xFB]
               \<and> (0xFB::byte) \<noteq> last [0x1B, 0x01, 0x00, 0x01, 0x0E, 0x11, 0x04]) \<or>
             ([0x1B, 0x01, 0x00, 0x01, 0x0E, 0x11, 0xFB] = [0x1B, 0x01, 0x00, 0x01, 0x0E, 0x11, 0x04 :: byte][4 := 0x1B]
               \<and> (0x1B::byte) \<noteq> 0x0E \<and> 0x1B \<notin> set (drop 5 [0x1B, 0x01, 0x00, 0x01, 0x0E, 0x11, 0x04 :: byte]))"
    by simp
  have a: "recvMessage ((Stk500v2_init 128 1024
       (map Some ([0x1B, 0x01, 0x00, 0x01, 0x1B, 0x11, 0x04] @
                  [0x1B, 0x02, 0x00, 0x01, 0x0E, 0x11, 0x07])))\<lparr>serial := Some com22\<rparr>) =
     (Inr [0x11], (Stk500v2_init 128 1024 [])\<lparr>serial := Some com22\<rparr>)"
    using resync_after_corrupted_frame [OF vC V vF F tok, of _ com22 "[]"]
    by (simp add: Stk500v2_init_def)
  have b: "recvMessage ((Stk500v2_init 128 1024
       (map Some ([0x1B, 0x01, 0x00, 0x01, 0x0E, 0x11, 0xFB] @
                  [0x1B, 0x02, 0x00, 0x01, 0x0E, 0x11, 0x07])))\<lparr>serial := Some com22\<rparr>) =
     (Inr [0x11], (Stk500v2_init 128 1024 [])\<lparr>serial := Some com22\<rparr>)"
    using resync_after_corrupted_frame [OF vC V vF F cks, of _ com22 "[]"]
    by (simp add: Stk500v2_init_def)
  from a b show ?thesis by simp
qed

subsection \<open>The sequence number\<close>

text \<open>
  Claim C8. Every call of \<open>sendMessage\<close> increments the sequence number by exactly 1
  modulo 256, whatever its outcome, and the sequence number is 1 after \<open>connect\<close>.
  \<open>sendMessage\<close> increments the sequence number after it has written the frame, and it
  builds the frame before it writes it. Building the frame raises \<open>TypeError\<close>
  (\<open>encode_message_raises\<close>), so the call ends before the write and before the
  increment: on an object that holds an open port and has sequence number 1, in front of
  a device ready to answer, \<open>sendMessage([0x11])\<close> raises \<open>TypeError\<close> and the
  sequence number is still 1. A call whose write would time out ends in the same way,
  before the write is tried.
\<close>

theorem sendMessage_keeps_seq:
  "sendMessage [0x11]
     ((Stk500v2_init 128 1024 (reply_stream [(1, [0x11, 0x00])]))\<lparr>serial := Some com22\<rparr>) =
     (Inl TypeError,
      (Stk500v2_init 128 1024 (reply_stream [(1, [0x11, 0x00])]))\<lparr>serial := Some com22\<rparr>) \<and>
   seq (snd (sendMessage [0x11]
     ((Stk500v2_init 128 1024 (reply_stream [(1, [0x11, 0x00])]))\<lparr>serial := Some com22\<rparr>))) = 1 \<and>
   sendMessage [0x11] ((Stk500v2_init 128 1024 [])\<lparr>serial := Some com22, wr := [True]\<rparr>) =
     (Inl TypeError, (Stk500v2_init 128 1024 [])\<lparr>serial := Some com22, wr := [True]\<rparr>)"
  by (simp add: sendMessage_def encode_message_def pack_BBHB_def pack_B_def Stk500v2_init_def)

subsection \<open>The handshake of \<open>connect\<close>\<close>

lemma open_serial_Inl:
  assumes "open_serial prt speed s = (Inl e, s1)"
  shows "serial s1 = None \<and>
         (e = IspError ''Failed to open serial port'' \<or>
          (\<exists>exc. e = IspError (''Unexpected error while connecting to serial port:'' @ prt @ '':'' @ exc)))"
  using assms
  by (auto simp: open_serial_def close_def Let_def split: list.splits open_result.splits option.splits if_splits)

lemma open_serial_Inr:
  "open_serial prt speed s = (Inr u, s2) \<Longrightarrow>
   serial s2 = Some \<lparr>port = prt, baudrate = speed, timeout = 1, writeTimeout = 10000\<rparr> \<and>
   wr s2 = wr s \<and> rx s2 = rx s \<and>
   trace s2 = trace (if serial s \<noteq> None then close s else s) @ [Open prt speed]"
  by (auto simp: open_serial_def close_def Let_def split: list.splits open_result.splits option.splits if_splits)

lemma open_serial_trace:
  assumes "serial s = Some p" "open_serial prt speed s = (r, s1)"
  shows "\<exists>more. trace s1 = trace s @ Close (port p) # more"
  using assms
  by (auto simp: open_serial_def close_def Let_def split: list.splits open_result.splits)

text \<open>
  Once the port is open, \<open>connect\<close> ends in its first call of \<open>sendMessage\<close>: it
  raises what that call raises, with the port open and nothing written.
\<close>

lemma connect_raises:
  assumes "open_serial prt speed s = (Inr u, s2)"
  shows "connect prt speed s = (Inl TypeError, reset_controller s2)"
  using assms by (simp add: connect_def sendMessage_raises reset_controller_def)

text \<open>
  Claim C4. \<open>connect\<close> succeeds only when the reply to the enter-programming-mode
  frame is \<open>[0x10, 0x00]\<close>; for every other reply it raises
  \<open>IspError("Failed to enter programming mode")\<close> and has closed the port before.
  \<open>connect\<close> sends the synchronisation frame before the enter-programming-mode frame,
  and \<open>sendMessage\<close> raises \<open>TypeError\<close> while it builds that first frame: in front of
  a device that would answer the synchronisation frame and would answer the
  enter-programming-mode frame with \<open>[0x10, 0xC0]\<close>, \<open>connect\<close> raises \<open>TypeError\<close>,
  has written and read nothing, and leaves the port it has opened open.
\<close>

theorem connect_leaves_port_open:
  "connect ''COM22'' 115200
     (Stk500v2_init 128 1024 (reply_stream [(1, [0x01, 0x00]), (2, [0x10, 0xC0])])) =
     (Inl TypeError,
      (Stk500v2_init 128 1024 (reply_stream [(1, [0x01, 0x00]), (2, [0x10, 0xC0])]))
        \<lparr>serial := Some com22,
          trace := [Open ''COM22'' 115200, SetDTR 1, Sleep 100, SetDTR 0, Sleep 200,
                    FlushInput, FlushOutput]\<rparr>) \<and>
   isConnected (snd (connect ''COM22'' 115200
     (Stk500v2_init 128 1024 (reply_stream [(1, [0x01, 0x00]), (2, [0x10, 0xC0])]))))"
  by (simp add: connect_def open_serial_def reset_controller_def sendMessage_def
      encode_message_def pack_BBHB_def pack_B_def isConnected_def com22_def Stk500v2_init_def)

subsection \<open>One transport at a time\<close>

text \<open>
  When \<open>connect\<close> is called on an object that holds an open port, the first thing it
  does is close that port, before the constructor of the new one is called; when the new
  port cannot be opened the object is left without a port. \<open>isConnected\<close> is true
  exactly when the object holds a port, and it is false after \<open>close\<close>.
\<close>

lemma close_before_open:
  assumes "serial s = Some p"
  shows "\<exists>more. trace (snd (connect prt speed s)) = trace s @ Close (port p) # more"
proof -
  obtain r1 s1 where o: "open_serial prt speed s = (r1, s1)" by (cases "open_serial prt speed s")
  from open_serial_trace [OF assms o] obtain more where t: "trace s1 = trace s @ Close (port p) # more"
    by blast
  show ?thesis
  proof (cases r1)
    case (Inl e)
    with o t show ?thesis by (simp add: connect_def)
  next
    case (Inr u)
    with o have "connect prt speed s = (Inl TypeError, reset_controller s1)"
      by (simp add: connect_raises)
    with t show ?thesis by (simp add: reset_controller_def)
  qed
qed

lemma connect_not_opened:
  assumes "open_serial prt speed s = (Inl e, s1)"
  shows "connect prt speed s = (Inl e, s1) \<and> \<not> isConnected s1"
  using assms open_serial_Inl [OF assms] by (simp add: connect_def isConnected_def)

lemma isConnected_iff: "isConnected s \<longleftrightarrow> serial s \<noteq> None"
  by (simp add: isConnected_def)

lemma isConnected_close: "\<not> isConnected (close s)"
  by (simp add: isConnected_def close_def split: option.splits)

text \<open>
  \<open>leaveISP\<close> on an object that holds a port hands the port over only after
  \<open>sendMessage\<close> has returned, which it does not.
\<close>

lemma leaveISP_raises:
  "serial s = Some p \<Longrightarrow> \<exists>e. leaveISP s = (Inl e, s)"
  by (simp add: leaveISP_def sendMessage_raises)

text \<open>
  Claim C10. \<open>connect\<close> on an object that holds a port closes that port before it opens
  the new one, and \<open>isConnected\<close> is true exactly when the object holds a port: in
  particular it is false after \<open>close\<close>, after \<open>leaveISP\<close> and after a failed
  handshake. The first part holds (\<open>close_before_open\<close>, \<open>isConnected_iff\<close>,
  \<open>isConnected_close\<close>). But \<open>leaveISP\<close> on an object that holds a port, in front of a
  device ready to acknowledge, raises \<open>TypeError\<close> in \<open>sendMessage\<close> and the object
  keeps the port; and \<open>connect\<close> on an object that holds port \<open>COM3\<close> closes it, opens
  \<open>COM22\<close>, fails in the handshake with \<open>TypeError\<close> and keeps \<open>COM22\<close> open. In
  both cases \<open>isConnected\<close> is true afterwards.
\<close>

theorem leaveISP_keeps_port:
  "leaveISP ((Stk500v2_init 128 1024 (reply_stream [(1, [0x11, 0x00])]))\<lparr>serial := Some com22\<rparr>) =
     (Inl TypeError,
      (Stk500v2_init 128 1024 (reply_stream [(1, [0x11, 0x00])]))\<lparr>serial := Some com22\<rparr>) \<and>
   isConnected (snd (leaveISP
     ((Stk500v2_init 128 1024 (reply_stream [(1, [0x11, 0x00])]))\<lparr>serial := Some com22\<rparr>))) \<and>
   connect ''COM22'' 115200
     ((Stk500v2_init 128 1024 (reply_stream [(1, [0x01, 0x00]), (2, [0x10, 0xC0])]))
        \<lparr>serial := Some (com22\<lparr>port := ''COM3''\<rparr>)\<rparr>) =
     (Inl TypeError,
      (Stk500v2_init 128 1024 (reply_stream [(1, [0x01, 0x00]), (2, [0x10, 0xC0])]))
        \<lparr>serial := Some com22,
          trace := [Close ''COM3'', Open ''COM22'' 115200, SetDTR 1, Sleep 100, SetDTR 0,
                    Sleep 200, FlushInput, FlushOutput]\<rparr>) \<and>
   isConnected (snd (connect ''COM22'' 115200
     ((Stk500v2_init 128 1024 (reply_stream [(1, [0x01, 0x00]), (2, [0x10, 0xC0])]))
        \<lparr>serial := Some (com22\<lparr>port := ''COM3''\<rparr>)\<rparr>)))"
  by (simp add: leaveISP_def connect_def open_serial_def close_def reset_controller_def
      sendMessage_def encode_message_def pack_BBHB_def pack_B_def isConnected_def com22_def
      Stk500v2_init_def)

subsection \<open>The flash operations\<close>

text \<open>
  \<open>writeFlash\<close> and \<open>verifyFlash\<close> end in their first call of \<open>sendMessage\<close>. Were
  that call to return, neither would enter its loop: \<open>loadCount\<close> is a float, and
  \<open>range\<close> raises \<open>TypeError\<close> on it.
\<close>

lemma writeFlash_raises: "\<exists>e. writeFlash flashData s = (Inl e, s)"
  by (simp add: writeFlash_def sendMessage_raises Let_def)

lemma verifyFlash_raises: "\<exists>e. verifyFlash flashData s = (Inl e, s)"
  by (simp add: verifyFlash_def sendMessage_raises Let_def)

lemma writeFlash_no_loop:
  "writeFlash flashData s =
     (case sendMessage (load_address (chip_pageSize s * 2 * chip_pageCount s)) s of
        (Inl e, s1) \<Rightarrow> (Inl e, s1)
      | (Inr recv, s1) \<Rightarrow>
          (if chip_pageSize s * 2 = 0 then (Inl ZeroDivisionError, s1) else (Inl TypeError, s1)))"
  by (simp add: writeFlash_def true_div_def Let_def split: prod.splits sum.splits)

lemma verifyFlash_no_loop:
  "verifyFlash flashData s =
     (case sendMessage (load_address (chip_pageSize s * 2 * chip_pageCount s)) s of
        (Inl e, s1) \<Rightarrow> (Inl e, s1)
      | (Inr recv, s1) \<Rightarrow> (Inl TypeError, s1))"
  by (simp add: verifyFlash_def true_div_def Let_def split: prod.splits sum.splits)

text \<open>
  Claim C6. \<open>writeFlash\<close> and \<open>verifyFlash\<close> each begin by issuing one load-address
  command, whose first address byte is \<open>0x80\<close> when the flash is larger than \<open>0xFFFF\<close>
  bytes and \<open>0x00\<close> otherwise. Both choose that command: for a chip of 1024 pages of
  128 words it is \<open>[0x06, 0x80, 0x00, 0x00, 0x00]\<close>. Neither issues it: \<open>sendMessage\<close>
  raises \<open>TypeError\<close> while it builds the frame, and no frame is written.
\<close>

theorem load_address_not_written:
  "load_address (128 * 2 * 1024) = [0x06, 0x80, 0x00, 0x00, 0x00] \<and>
   writeFlash [0x0C, 0x94]
     ((Stk500v2_init 128 1024 (reply_stream [(1, [0x06, 0x00]), (2, [0x13, 0x00])]))
        \<lparr>serial := Some com22\<rparr>) =
     (Inl TypeError,
      (Stk500v2_init 128 1024 (reply_stream [(1, [0x06, 0x00]), (2, [0x13, 0x00])]))
        \<lparr>serial := Some com22\<rparr>) \<and>
   verifyFlash [0x0C, 0x94]
     ((Stk500v2_init 128 1024 (reply_stream [(1, [0x06, 0x00]), (2, [0x14, 0x00, 0x0C, 0x94, 0x00])]))
        \<lparr>serial := Some com22\<rparr>) =
     (Inl TypeError,
      (Stk500v2_init 128 1024 (reply_stream [(1, [0x06, 0x00]), (2, [0x14, 0x00, 0x0C, 0x94, 0x00])]))
        \<lparr>serial := Some com22\<rparr>) \<and>
   written (trace (snd (writeFlash [0x0C, 0x94]
     ((Stk500v2_init 128 1024 (reply_stream [(1, [0x06, 0x00]), (2, [0x13, 0x00])]))
        \<lparr>serial := Some com22\<rparr>)))) = [] \<and>
   written (trace (snd (verifyFlash [0x0C, 0x94]
     ((Stk500v2_init 128 1024 (reply_stream [(1, [0x06, 0x00]), (2, [0x14, 0x00, 0x0C, 0x94, 0x00])]))
        \<lparr>serial := Some com22\<rparr>)))) = []"
  by (simp add: load_address_def writeFlash_def verifyFlash_def sendMessage_def
      encode_message_def pack_BBHB_def pack_B_def Stk500v2_init_def Let_def)

text \<open>
  Claim C5. For an image of \<open>L\<close> bytes and pages of \<open>P\<close> bytes, \<open>writeFlash\<close> issues
  \<open>ceil(L / P)\<close> program-page commands, the \<open>i\<close>-th with the bytes of the image from
  offset \<open>i * P\<close>. For an image of five bytes and pages of two bytes that is three
  commands. \<open>writeFlash\<close> issues none: it ends in the call of \<open>sendMessage\<close> for the
  load-address command, with \<open>TypeError\<close>, before the loop over the pages, and nothing
  has been written.
\<close>

theorem writeFlash_no_pages:
  "writeFlash [1, 2, 3, 4, 5]
     ((Stk500v2_init 1 4
         (reply_stream [(1, [0x06, 0x00]), (2, [0x13, 0x00]), (3, [0x13, 0x00]), (4, [0x13, 0x00])]))
        \<lparr>serial := Some com22\<rparr>) =
     (Inl TypeError,
      (Stk500v2_init 1 4
         (reply_stream [(1, [0x06, 0x00]), (2, [0x13, 0x00]), (3, [0x13, 0x00]), (4, [0x13, 0x00])]))
        \<lparr>serial := Some com22\<rparr>) \<and>
   written (trace (snd (writeFlash [1, 2, 3, 4, 5]
     ((Stk500v2_init 1 4
         (reply_stream [(1, [0x06, 0x00]), (2, [0x13, 0x00]), (3, [0x13, 0x00]), (4, [0x13, 0x00])]))
        \<lparr>serial := Some com22\<rparr>)))) = []"
  by (simp add: load_address_def writeFlash_def sendMessage_def
      encode_message_def pack_BBHB_def pack_B_def Stk500v2_init_def Let_def)

text \<open>
  Claim C7. When the read-back stream first differs from the expected image at offset
  \<open>K\<close>, \<open>verifyFlash\<close> fails with the verify error that reports \<open>K\<close>. For the image
  \<open>0C 94 72\<close> and a device that reads back \<open>0C 95 72\<close> that is the error for offset
  1. \<open>verifyFlash\<close> raises \<open>TypeError\<close> instead: it ends in the call of
  \<open>sendMessage\<close> for the load-address command, before it has read anything back.
\<close>

theorem verifyFlash_no_verify_error:
  "verifyFlash [0x0C, 0x94, 0x72]
     ((Stk500v2_init 128 1024
         (reply_stream [(1, [0x06, 0x00]), (2, [0x14, 0x00, 0x0C, 0x95, 0x72, 0x00])]))
        \<lparr>serial := Some com22\<rparr>) =
     (Inl TypeError,
      (Stk500v2_init 128 1024
         (reply_stream [(1, [0x06, 0x00]), (2, [0x14, 0x00, 0x0C, 0x95, 0x72, 0x00])]))
        \<lparr>serial := Some com22\<rparr>)"
  by (simp add: load_address_def verifyFlash_def sendMessage_def
      encode_message_def pack_BBHB_def pack_B_def Stk500v2_init_def Let_def)

end
